theory Spec2Isabelle
  imports Main
begin

section \<open>Calendar dates\<close>

text \<open>
  The chat example of \<^verbatim>\<open>src/components/ChatExample.tsx\<close> works on JavaScript
  \<^verbatim>\<open>Date\<close> objects that are set to local midnight and moved by whole days
  (\<^verbatim>\<open>setDate(getDate() - i)\<close>). Such a value is modelled by its calendar day, counted
  in days from Thursday 1 January 1970; what the code reads from it is the day of the week
  (\<^verbatim>\<open>getDay()\<close>: Sunday is 0, Saturday is 6) and the midnight instant used as a key and
  in comparisons, which is the day number itself.
\<close>

type_synonym Date = int

text \<open>
  \<^verbatim>\<open>setDate\<close> names a day of the local calendar by count (the day of the month plus or
  minus some days, carried over the ends of months). A time zone may lack a calendar day:
  Pacific/Apia went from 29 to 31 December 2011. JavaScript resolves a local time that the
  zone never had with the offset before the gap, which lands on the day after the missing
  one. The time zone of the environment is a parameter of the model, given by the list of
  the calendar days it skipped; \<open>[]\<close> is a zone whose calendar has every day. A local
  time that is missing for part of a day only (the hour skipped by daylight saving) moves a
  date within its day and does not show in the day number. A date set to its own day is
  unchanged. \<open>setDate zone d n\<close> is the date \<open>d\<close> after \<^verbatim>\<open>d.setDate(...)\<close> with an
  argument that names the day \<open>n\<close>.
\<close>

type_synonym Zone = "Date list"

definition setDate :: "Zone \<Rightarrow> Date \<Rightarrow> int \<Rightarrow> Date" where
  "setDate zone d n = (if n = d then d else if n \<in> set zone then n + 1 else n)"

definition getDay :: "Date \<Rightarrow> nat" where
  "getDay d = nat ((d + 4) mod 7)"

text \<open>\<^verbatim>\<open>isWeekend\<close>: Sunday or Saturday.\<close>

definition isWeekend :: "Date \<Rightarrow> bool" where
  "isWeekend date = (let dayOfWeek = getDay date in dayOfWeek = 0 \<or> dayOfWeek = 6)"

text \<open>The test \<^verbatim>\<open>dayOfWeek >= 1 && dayOfWeek <= 5\<close> that the code writes out in three places.\<close>

definition isWeekdayNumber :: "nat \<Rightarrow> bool" where
  "isWeekdayNumber dayOfWeek = (dayOfWeek \<ge> 1 \<and> dayOfWeek \<le> 5)"

section \<open>The date window: \<^verbatim>\<open>generateDates\<close>\<close>

text \<open>
  The first loop of \<^verbatim>\<open>generateDates\<close> walks back from today and counts weekdays:
  \<^verbatim>\<open>while (weekdayCount < minDays || daysBack < minDays) { ...; daysBack++; if (daysBack > 14) break; }\<close>.
  It returns the final \<^verbatim>\<open>daysBack\<close>. The current date, read from the clock in the source,
  is the parameter \<open>today\<close>; \<open>checkDate\<close> is a copy of today set to the day
  \<open>daysBack\<close> days back.
\<close>

definition minDays :: nat where
  "minDays = 3"

function countDaysBack :: "Zone \<Rightarrow> Date \<Rightarrow> nat \<Rightarrow> nat \<Rightarrow> nat" where
  "countDaysBack zone today daysBack weekdayCount =
     (if weekdayCount < minDays \<or> daysBack < minDays then
        let checkDate = setDate zone today (today - int daysBack);
            dayOfWeek = getDay checkDate;
            weekdayCount' = (if isWeekdayNumber dayOfWeek then weekdayCount + 1 else weekdayCount);
            daysBack' = daysBack + 1
        in if daysBack' > 14 then daysBack'
           else countDaysBack zone today daysBack' weekdayCount'
      else daysBack)"
  by pat_completeness auto
termination
  by (relation "measure (\<lambda>(zone, today, daysBack, weekdayCount). 15 - daysBack)") auto

text \<open>
  The second loop, \<^verbatim>\<open>for (let i = daysBack; i >= 0; i--)\<close>, which pushes a copy of today
  set to the day \<open>i\<close> days back, by recursion on \<open>i\<close>: the dates pushed from \<open>i\<close> down
  to 0.
\<close>

fun pushDates :: "Zone \<Rightarrow> Date \<Rightarrow> nat \<Rightarrow> Date list" where
  "pushDates zone today 0 = [setDate zone today (today - int 0)]"
| "pushDates zone today (Suc i) =
     setDate zone today (today - int (Suc i)) # pushDates zone today i"

definition generateDates :: "Zone \<Rightarrow> Date \<Rightarrow> Date list" where
  "generateDates zone today = pushDates zone today (countDaysBack zone today 0 0)"

section \<open>Senders: \<^verbatim>\<open>conversationScript\<close> and \<^verbatim>\<open>getSenderForMessage\<close>\<close>

datatype Sender = you | support

datatype ConversationType = bad | good

fun conversationScript :: "ConversationType \<Rightarrow> Sender list" where
  "conversationScript bad = [you, support, you, support, you, support, you, support]"
| "conversationScript good = [you, support]"

text \<open>The index comes from \<^verbatim>\<open>forEach\<close>, so it is a natural number.\<close>

definition getSenderForMessage :: "ConversationType \<Rightarrow> nat \<Rightarrow> Sender" where
  "getSenderForMessage type index =
     (let script = conversationScript type
      in if index < length script then script ! index
         else if index mod 2 = 0 then you else support)"

section \<open>Time strings and business hours\<close>

text \<open>
  Strings are lists of code units below 256. \<^verbatim>\<open>parseTimeToHour\<close> searches its argument
  with the regular expression \<^verbatim>\<open>/(\d+):(\d+)\s*(AM|PM)/i\<close>: \<^verbatim>\<open>\d\<close> is an ASCII digit,
  \<^verbatim>\<open>\s\<close> is one of the white-space code units (tab, line feed, vertical tab, form feed,
  carriage return, space, no-break space) and the flag \<^verbatim>\<open>i\<close> lets each letter of the
  period match in either case.
\<close>

definition isDigit :: "char \<Rightarrow> bool" where
  "isDigit c = (c \<in> set ''0123456789'')"

definition isSpace :: "char \<Rightarrow> bool" where
  "isSpace c = ((of_char c :: nat) \<in> {9, 10, 11, 12, 13, 32, 160})"

definition matchesLetter :: "char \<Rightarrow> char \<Rightarrow> char \<Rightarrow> bool" where
  "matchesLetter upper lower c = (c = upper \<or> c = lower)"

text \<open>
  An attempt to match at the start of \<open>s\<close>. Each greedy group can only match its whole
  run: a shorter run of digits is followed by a digit, which is neither \<^verbatim>\<open>:\<close> nor white
  space nor a letter, and a shorter run of white space is followed by white space; so
  backtracking inside one start position never finds another match. The result is the
  three groups.
\<close>

definition matchTimeAt :: "string \<Rightarrow> (string \<times> string \<times> string) option" where
  "matchTimeAt s =
     (let g1 = takeWhile isDigit s; r1 = dropWhile isDigit s
      in if g1 = [] then None
         else case r1 of
           [] \<Rightarrow> None
         | c # r2 \<Rightarrow>
             if c \<noteq> CHR '':'' then None
             else let g2 = takeWhile isDigit r2; r3 = dropWhile isDigit r2
                  in if g2 = [] then None
                     else (case dropWhile isSpace r3 of
                             a # b # _ \<Rightarrow>
                               if (matchesLetter CHR ''A'' CHR ''a'' a
                                     \<or> matchesLetter CHR ''P'' CHR ''p'' a)
                                  \<and> matchesLetter CHR ''M'' CHR ''m'' b
                               then Some (g1, g2, [a, b])
                               else None
                           | _ \<Rightarrow> None))"

text \<open>\<^verbatim>\<open>timeString.match(...)\<close>: the match at the leftmost start position that has one.\<close>

fun matchTime :: "string \<Rightarrow> (string \<times> string \<times> string) option" where
  "matchTime [] = None"
| "matchTime (c # cs) =
     (case matchTimeAt (c # cs) of
        Some groups \<Rightarrow> Some groups
      | None \<Rightarrow> matchTime cs)"

text \<open>\<^verbatim>\<open>parseInt(digits, 10)\<close> on a non-empty run of digits, as an unbounded number.\<close>

definition parseInt :: "string \<Rightarrow> nat" where
  "parseInt digits = foldl (\<lambda>n c. 10 * n + (of_char c - 48)) 0 digits"

text \<open>\<^verbatim>\<open>toUpperCase\<close> on the matched period, whose letters are ASCII.\<close>

definition toUpperCase :: "string \<Rightarrow> string" where
  "toUpperCase s =
     map (\<lambda>c. if (97::nat) \<le> of_char c \<and> of_char c \<le> (122::nat)
               then char_of (of_char c - (32::nat)) else c) s"

definition BUSINESS_HOUR_START :: nat where
  "BUSINESS_HOUR_START = 9"

definition BUSINESS_HOUR_END :: nat where
  "BUSINESS_HOUR_END = 17"

definition parseTimeToHour :: "string \<Rightarrow> nat" where
  "parseTimeToHour timeString =
     (case matchTime timeString of
        None \<Rightarrow> BUSINESS_HOUR_START
      | Some (g1, g2, g3) \<Rightarrow>
          let hour = parseInt g1; period = toUpperCase g3
          in if period = ''PM'' \<and> hour \<noteq> 12 then hour + 12
             else if period = ''AM'' \<and> hour = 12 then 0
             else hour)"

definition isWithinBusinessHours :: "string \<Rightarrow> bool" where
  "isWithinBusinessHours timeString =
     (let hour = parseTimeToHour timeString
      in hour \<ge> BUSINESS_HOUR_START \<and> hour \<le> BUSINESS_HOUR_END)"

text \<open>
  \<^verbatim>\<open>getNextBusinessDay\<close>: a copy of \<open>date\<close> set to the next day (and to 9:00, which does
  not change its day), then moved on a day at a time while it is a weekend. The loop
  \<^verbatim>\<open>while (isWeekend(nextDate)) nextDate.setDate(nextDate.getDate() + 1)\<close> is
  \<open>skipWeekend\<close>. It ends in every zone: each step moves forward, and after the last
  skipped day of the zone a Saturday is followed by a Sunday and a Monday.
\<close>

function skipWeekend :: "Zone \<Rightarrow> Date \<Rightarrow> Date" where
  "skipWeekend zone nextDate =
     (if isWeekend nextDate then skipWeekend zone (setDate zone nextDate (nextDate + 1))
      else nextDate)"
  by pat_completeness auto
termination
proof (relation "measure (\<lambda>(zone, d).
    3 * nat (Max (insert 0 (set zone)) + 1 - d)
    + (if getDay d = 6 then 2 else if getDay d = 0 then 1 else 0))")
  show "wf (measure (\<lambda>(zone :: Zone, d :: Date).
    3 * nat (Max (insert 0 (set zone)) + 1 - d)
    + (if getDay d = 6 then 2 else if getDay d = 0 then 1 else 0)))"
    by simp
next
  fix zone :: Zone and nextDate :: Date
  assume "isWeekend nextDate"
  then have "(nextDate + 4) mod 7 = 0 \<or> (nextDate + 4) mod 7 = 6"
    by (auto simp: isWeekend_def getDay_def Let_def)
  then have "((nextDate + 4) mod 7 = 0 \<and> (nextDate + 1 + 4) mod 7 = 1)
      \<or> ((nextDate + 4) mod 7 = 6 \<and> (nextDate + 1 + 4) mod 7 = 0)"
    by presburger
  then have days: "(getDay nextDate = 0 \<and> getDay (nextDate + 1) = 1)
      \<or> (getDay nextDate = 6 \<and> getDay (nextDate + 1) = 0)"
    by (auto simp: getDay_def)
  define M where "M = Max (insert 0 (set zone))"
  have "3 * nat (M + 1 - setDate zone nextDate (nextDate + 1))
        + (if getDay (setDate zone nextDate (nextDate + 1)) = 6 then 2
           else if getDay (setDate zone nextDate (nextDate + 1)) = 0 then 1 else 0)
      < 3 * nat (M + 1 - nextDate)
        + (if getDay nextDate = 6 then 2 else if getDay nextDate = 0 then 1 else (0::nat))"
  proof (cases "nextDate + 1 \<in> set zone")
    case True
    then have "nextDate + 1 \<le> M"
      unfolding M_def by (intro Max_ge) simp_all
    with True days show ?thesis
      by (auto simp: setDate_def)
  next
    case False
    with days show ?thesis
      by (auto simp: setDate_def)
  qed
  then show "((zone, setDate zone nextDate (nextDate + 1)), (zone, nextDate)) \<in>
      measure (\<lambda>(zone, d).
        3 * nat (Max (insert 0 (set zone)) + 1 - d)
        + (if getDay d = 6 then 2 else if getDay d = 0 then 1 else 0))"
    unfolding M_def by simp
qed

definition getNextBusinessDay :: "Zone \<Rightarrow> Date \<Rightarrow> Date" where
  "getNextBusinessDay zone date = skipWeekend zone (setDate zone date (date + 1))"

definition adjustToBusinessHours :: "Zone \<Rightarrow> Date \<Rightarrow> string \<Rightarrow> Date \<times> string" where
  "adjustToBusinessHours zone date timeString =
     (if isWeekend date then (getNextBusinessDay zone date, ''9:00 AM'')
      else if \<not> isWithinBusinessHours timeString
           then (getNextBusinessDay zone date, ''9:00 AM'')
      else (date, timeString))"

section \<open>Assigned messages\<close>

text \<open>
  The interface \<^verbatim>\<open>AssignedMessage\<close>. The field \<open>date\<close> is optional in the model: a read
  past the end of the window array gives \<^verbatim>\<open>undefined\<close> in JavaScript, which is \<open>None\<close>.
  The field \<open>text'\<close> is the field \<^verbatim>\<open>text\<close> of the source.
\<close>

record AssignedMessage =
  text' :: string
  sender :: Sender
  date :: "Date option"
  timestamp :: string
  dateBreakIndex :: nat

datatype error = TypeError

text \<open>An array read \<^verbatim>\<open>xs[i]\<close> at a numeric index: \<^verbatim>\<open>undefined\<close> outside the array.\<close>

definition arrayGet :: "'a list \<Rightarrow> int \<Rightarrow> 'a option" where
  "arrayGet xs i = (if 0 \<le> i \<and> i < int (length xs) then Some (xs ! nat i) else None)"

section \<open>Date breaks\<close>

text \<open>
  The first loop of \<^verbatim>\<open>generateTimestamps\<close>, from \<open>i\<close> on, with the breaks pushed so far.
  It starts at \<open>i = 1\<close> with \<open>[0]\<close>.
\<close>

function dateBreaksFrom :: "AssignedMessage list \<Rightarrow> nat \<Rightarrow> nat list \<Rightarrow> nat list" where
  "dateBreaksFrom messages i dateBreaks =
     (if i < length messages then
        let currentSender = sender (messages ! i);
            prevSender = sender (messages ! (i - 1))
        in dateBreaksFrom messages (i + 1)
             (if i mod 2 = 0 \<or> (prevSender = support \<and> currentSender = you)
              then dateBreaks @ [i] else dateBreaks)
      else dateBreaks)"
  by pat_completeness auto
termination
  by (relation "measure (\<lambda>(messages, i, dateBreaks). length messages - i)") auto

definition computeDateBreaks :: "AssignedMessage list \<Rightarrow> nat list" where
  "computeDateBreaks messages = dateBreaksFrom messages 1 [0]"

text \<open>
  The search for the break of a message: the indices of \<open>dateBreaks\<close> from the last down
  to 0, stopping at the first whose start is at most \<open>index\<close>; 0 when there is none.
\<close>

definition findDateBreakIndex :: "nat list \<Rightarrow> nat \<Rightarrow> nat" where
  "findDateBreakIndex dateBreaks index =
     (case find (\<lambda>i. index \<ge> dateBreaks ! i) (rev [0..<length dateBreaks]) of
        Some i \<Rightarrow> i
      | None \<Rightarrow> 0)"

section \<open>Mapping a break to a date\<close>

text \<open>The index arithmetic is on integers: with an empty window \<open>len - 1\<close> is \<open>-1\<close>.\<close>

definition initialDateIndex :: "nat \<Rightarrow> nat \<Rightarrow> nat \<Rightarrow> int" where
  "initialDateIndex len totalDateBreaks breakIndex =
     (if totalDateBreaks > 0
      then max 0 (min (int len - 1 - (int totalDateBreaks - 1 - int breakIndex))
                      (int len - 1))
      else int len - 1)"

text \<open>
  The weekend check for a support message: when the mapped date is a Sunday or a Saturday,
  the first weekday after it in the window, else the nearest weekday before it, else the
  index unchanged. Both loops read inside the array.
\<close>

definition weekdayDateIndex :: "Date list \<Rightarrow> int \<Rightarrow> int" where
  "weekdayDateIndex availableDates mappedDateIndex =
     (let initialDate = arrayGet availableDates mappedDateIndex;
          initialDayOfWeek = map_option getDay initialDate
      in if initialDayOfWeek = Some 0 \<or> initialDayOfWeek = Some 6 then
           (case find (\<lambda>i. isWeekdayNumber (getDay (availableDates ! nat i)))
                   [mappedDateIndex + 1 .. int (length availableDates) - 1] of
              Some i \<Rightarrow> i
            | None \<Rightarrow>
               (case find (\<lambda>i. isWeekdayNumber (getDay (availableDates ! nat i)))
                       (rev [0 .. mappedDateIndex - 1]) of
                  Some i \<Rightarrow> i
                | None \<Rightarrow> mappedDateIndex))
         else mappedDateIndex)"

section \<open>Choosing the time\<close>

definition businessHoursTimes :: "string list" where
  "businessHoursTimes = [''9:07 AM'', ''11:19 AM'', ''2:00 PM'', ''4:07 PM'']"

definition allTimes :: "string list" where
  "allTimes = [''9:07 AM'', ''11:19 AM'', ''2:00 PM'', ''4:07 PM'', ''5:26 PM'', ''6:31 PM'',
     ''7:15 PM'']"

text \<open>
  \<open>breakIndex\<close> stands for the local variable \<^verbatim>\<open>dateBreakIndex\<close> of the source, whose
  name is taken by the record field, and \<open>times'\<close> for \<^verbatim>\<open>times\<close>. \<open>lastTimeIndex\<close> is the entry of the map for the date, \<open>None\<close> for \<^verbatim>\<open>undefined\<close>.
\<close>

definition nextTimeIndex :: "string list \<Rightarrow> nat option \<Rightarrow> nat \<Rightarrow> nat" where
  "nextTimeIndex times' lastTimeIndex breakIndex =
     (case lastTimeIndex of
        None \<Rightarrow> min breakIndex (length times' - 1)
      | Some l \<Rightarrow>
          let timeIndex = l + 1
          in if timeIndex \<ge> length times' then length times' - 1 else timeIndex)"

text \<open>
  The two searches of the window after \<^verbatim>\<open>adjustToBusinessHours\<close>: the adjusted date itself
  when it is in the window and no weekend, else the first window date from the adjusted
  date on that is no weekend; \<open>None\<close> when both loops end without a find.
\<close>

definition findAdjustedDate :: "Date list \<Rightarrow> Date \<Rightarrow> Date option" where
  "findAdjustedDate availableDates adjustedDate =
     (case find (\<lambda>availableDate. availableDate = adjustedDate \<and> \<not> isWeekend availableDate)
             availableDates of
        Some availableDate \<Rightarrow> Some availableDate
      | None \<Rightarrow>
          find (\<lambda>availableDate. availableDate \<ge> adjustedDate \<and> \<not> isWeekend availableDate)
            availableDates)"

section \<open>\<^verbatim>\<open>generateTimestamps\<close>\<close>

text \<open>
  The map \<^verbatim>\<open>lastTimeIndexByDate\<close> is keyed by the midnight instant of the message's date,
  printed as a string; the key of the model is the date itself, and \<open>None\<close> is the key
  \<^verbatim>\<open>"NaN"\<close> that an \<^verbatim>\<open>undefined\<close> date gives.
\<close>

type_synonym TimeIndexMap = "Date option \<rightharpoonup> nat"

text \<open>
  The condition of the business-hours branch at the end of the callback, on the sender and
  the time read from the candidate list.
\<close>

definition rolloverTaken :: "Sender \<Rightarrow> string \<Rightarrow> bool" where
  "rolloverTaken s assignedTime = (s = support \<and> \<not> isWithinBusinessHours assignedTime)"

text \<open>
  The body of the business-hours branch: \<^verbatim>\<open>adjustToBusinessHours\<close> on the message's
  date and time, then the search of the window for the adjusted date. It gives the new date
  and time of the message. \<^verbatim>\<open>adjustToBusinessHours\<close> calls \<^verbatim>\<open>getDay\<close> on the date, which
  throws a \<^verbatim>\<open>TypeError\<close> when the date is \<^verbatim>\<open>undefined\<close>; when neither search of the
  window finds a date, the message keeps its date.
\<close>

definition reassignToBusinessHours ::
  "Zone \<Rightarrow> Date list \<Rightarrow> Date option \<Rightarrow> string \<Rightarrow> error + (Date option \<times> string)" where
  "reassignToBusinessHours zone availableDates msgDate assignedTime =
     (case msgDate of
        None \<Rightarrow> Inl TypeError
      | Some d \<Rightarrow>
          let adjusted = adjustToBusinessHours zone d assignedTime
          in Inr (case findAdjustedDate availableDates (fst adjusted) of
                    Some availableDate \<Rightarrow> Some availableDate
                  | None \<Rightarrow> msgDate,
                  snd adjusted))"

text \<open>
  The body of \<^verbatim>\<open>messages.forEach((msg, index) => ...)\<close>. It returns the message as the
  callback leaves it, the time it read from the candidate list before the business-hours
  branch (kept beside the message so that properties of that branch can be stated), and
  the updated map. The time index is at most the last index of the candidate list, so the
  read \<^verbatim>\<open>times[timeIndex]\<close> is inside the list.
\<close>

definition processMessage ::
  "Zone \<Rightarrow> nat list \<Rightarrow> Date list \<Rightarrow> TimeIndexMap \<Rightarrow> nat \<Rightarrow> AssignedMessage
     \<Rightarrow> error + (AssignedMessage \<times> string \<times> TimeIndexMap)" where
  "processMessage zone dateBreaks availableDates lastTimeIndexByDate index msg =
     (let breakIndex = findDateBreakIndex dateBreaks index;
          totalDateBreaks = length dateBreaks;
          mappedDateIndex0 = initialDateIndex (length availableDates) totalDateBreaks breakIndex;
          mappedDateIndex = (if sender msg = support
                             then weekdayDateIndex availableDates mappedDateIndex0
                             else mappedDateIndex0);
          msgDate = arrayGet availableDates mappedDateIndex;
          times' = (if sender msg = support then businessHoursTimes else allTimes);
          dateKey = msgDate;
          lastTimeIndex = lastTimeIndexByDate dateKey;
          timeIndex = nextTimeIndex times' lastTimeIndex breakIndex;
          assignedTime = times' ! timeIndex;
          lastTimeIndexByDate' = lastTimeIndexByDate(dateKey \<mapsto> timeIndex)
      in if rolloverTaken (sender msg) assignedTime then
           (case reassignToBusinessHours zone availableDates msgDate assignedTime of
              Inl e \<Rightarrow> Inl e
            | Inr (msgDate', assignedTime') \<Rightarrow>
                Inr (msg\<lparr>date := msgDate', timestamp := assignedTime',
                          dateBreakIndex := breakIndex\<rparr>,
                     assignedTime, lastTimeIndexByDate'))
         else Inr (msg\<lparr>date := msgDate, timestamp := assignedTime,
                        dateBreakIndex := breakIndex\<rparr>,
                   assignedTime, lastTimeIndexByDate'))"

text \<open>\<^verbatim>\<open>forEach\<close> over the messages from position \<open>index\<close> on; an exception ends it.\<close>

fun forEachMessage ::
  "Zone \<Rightarrow> nat list \<Rightarrow> Date list \<Rightarrow> TimeIndexMap \<Rightarrow> nat \<Rightarrow> AssignedMessage list
     \<Rightarrow> error + (AssignedMessage \<times> string) list" where
  "forEachMessage zone dateBreaks availableDates lastTimeIndexByDate index [] = Inr []"
| "forEachMessage zone dateBreaks availableDates lastTimeIndexByDate index (msg # rest) =
     (case processMessage zone dateBreaks availableDates lastTimeIndexByDate index msg
      of
        Inl e \<Rightarrow> Inl e
      | Inr (msg', assignedTime, lastTimeIndexByDate') \<Rightarrow>
          (case forEachMessage zone dateBreaks availableDates lastTimeIndexByDate'
                  (Suc index) rest of
             Inl e \<Rightarrow> Inl e
           | Inr out \<Rightarrow> Inr ((msg', assignedTime) # out)))"

text \<open>
  \<open>generateTimestampsTrace\<close> is the function with the time read for each message beside
  the message; \<open>generateTimestamps\<close> is what the source returns.
\<close>

definition generateTimestampsTrace ::
  "Zone \<Rightarrow> AssignedMessage list \<Rightarrow> Date list
     \<Rightarrow> error + (AssignedMessage \<times> string) list" where
  "generateTimestampsTrace zone messages availableDates =
     forEachMessage zone (computeDateBreaks messages) availableDates Map.empty 0 messages"

definition generateTimestamps ::
  "Zone \<Rightarrow> AssignedMessage list \<Rightarrow> Date list \<Rightarrow> error + AssignedMessage list" where
  "generateTimestamps zone messages availableDates =
     (case generateTimestampsTrace zone messages availableDates of
        Inl e \<Rightarrow> Inl e
      | Inr out \<Rightarrow> Inr (map fst out))"

section \<open>\<^verbatim>\<open>assignMessagesToUsers\<close> and the component's pipeline\<close>

text \<open>
  The first pass builds one stub per raw message; its date is \<^verbatim>\<open>new Date()\<close>, the clock
  at that moment, which the model takes as the parameter \<open>clock\<close> (the day read for the
  stub at each index).
\<close>

fun assignSenders ::
  "(nat \<Rightarrow> Date) \<Rightarrow> ConversationType \<Rightarrow> nat \<Rightarrow> string list \<Rightarrow> AssignedMessage list" where
  "assignSenders clock conversationType index [] = []"
| "assignSenders clock conversationType index (t # rest) =
     \<lparr>text' = t, sender = getSenderForMessage conversationType index,
      date = Some (clock index), timestamp = [], dateBreakIndex = 0\<rparr>
     # assignSenders clock conversationType (Suc index) rest"

definition assignMessagesToUsers ::
  "Zone \<Rightarrow> (nat \<Rightarrow> Date) \<Rightarrow> string list \<Rightarrow> Date list \<Rightarrow> ConversationType
     \<Rightarrow> error + AssignedMessage list" where
  "assignMessagesToUsers zone clock rawMessages availableDates conversationType =
     generateTimestamps zone (assignSenders clock conversationType 0 rawMessages)
       availableDates"

text \<open>
  The component \<^verbatim>\<open>ChatExample\<close> computes \<^verbatim>\<open>availableDates = generateDates()\<close> and then
  \<^verbatim>\<open>assignMessagesToUsers(rawMessages, availableDates, type)\<close>.
\<close>

definition assignedMessages ::
  "Zone \<Rightarrow> (nat \<Rightarrow> Date) \<Rightarrow> Date \<Rightarrow> string list \<Rightarrow> ConversationType
     \<Rightarrow> error + AssignedMessage list" where
  "assignedMessages zone clock today rawMessages type =
     assignMessagesToUsers zone clock rawMessages (generateDates zone today) type"

section \<open>Properties of the date window\<close>

declare dateBreaksFrom.simps [simp del]
declare countDaysBack.simps [simp del]
declare skipWeekend.simps [simp del]

lemma getDay_less: "getDay t < 7"
  unfolding getDay_def by simp

lemma isWeekend_iff: "isWeekend d \<longleftrightarrow> \<not> isWeekdayNumber (getDay d)"
  using getDay_less [of d] unfolding isWeekend_def isWeekdayNumber_def Let_def by auto



lemma setDate_self: "setDate zone d d = d"
  by (simp add: setDate_def)






lemma pushDates_nonempty: "pushDates zone today k \<noteq> []"
  by (cases k) simp_all

lemma last_pushDates: "last (pushDates zone today k) = today"
  by (induction k) (simp_all add: pushDates_nonempty setDate_self)











lemma generateDates_nonempty: "generateDates zone today \<noteq> []"
  by (simp add: generateDates_def pushDates_nonempty)






section \<open>Sender assignment\<close>

text \<open>
  Claim C6: the sender of the message at an index is the scripted sender when the index is
  inside the script of the conversation type, and otherwise \<open>you\<close> at even and \<open>support\<close>
  at odd indices; the two-element script \<open>good\<close> on ten messages gives the senders
  \<open>you\<close>, \<open>support\<close> in alternation.
\<close>

theorem getSenderForMessage_rule:
  "getSenderForMessage type index =
     (if index < length (conversationScript type) then conversationScript type ! index
      else if even index then you else support)
   \<and> map sender (assignSenders clock good 0 [m0, m1, m2, m3, m4, m5, m6, m7, m8, m9])
       = [you, support, you, support, you, support, you, support, you, support]"
  by (simp add: getSenderForMessage_def Let_def even_iff_mod_2_eq_zero)

section \<open>Date breaks\<close>

lemma dateBreaksFrom_filter:
  "dateBreaksFrom ms i acc =
     acc @ filter (\<lambda>i. i mod 2 = 0 \<or> (sender (ms ! (i - 1)) = support \<and> sender (ms ! i) = you))
             [i..<length ms]"
proof (induction ms i acc rule: dateBreaksFrom.induct)
  case (1 messages i dateBreaks)
  show ?case
  proof (cases "i < length messages")
    case True
    then show ?thesis
      using "1.IH" [OF True refl refl]
      by (subst dateBreaksFrom.simps) (simp add: upt_conv_Cons Let_def)
  next
    case False
    then show ?thesis by (subst dateBreaksFrom.simps) simp
  qed
qed

lemma computeDateBreaks_eq:
  "computeDateBreaks ms =
     0 # filter (\<lambda>i. i mod 2 = 0 \<or> (sender (ms ! (i - 1)) = support \<and> sender (ms ! i) = you))
           [1..<length ms]"
  by (simp add: computeDateBreaks_def dateBreaksFrom_filter)

text \<open>
  Claim C7: the list of break starts begins with 0, and an index \<open>i > 0\<close> is in it exactly
  when it is the index of a message and either \<open>i\<close> is even or the sender at \<open>i - 1\<close> is
  \<open>support\<close> and the sender at \<open>i\<close> is \<open>you\<close>.
\<close>

theorem computeDateBreaks_rule:
  "hd (computeDateBreaks messages) = 0
   \<and> set (computeDateBreaks messages) =
       insert 0 {i. 0 < i \<and> i < length messages
                    \<and> (even i \<or> (sender (messages ! (i - 1)) = support
                                   \<and> sender (messages ! i) = you))}"
  by (auto simp: computeDateBreaks_eq even_iff_mod_2_eq_zero)

section \<open>A single message\<close>

lemma arrayGet_last: "xs \<noteq> [] \<Longrightarrow> arrayGet xs (int (length xs) - 1) = Some (last xs)"
  by (simp add: arrayGet_def last_conv_nth nat_diff_distrib')

lemma getSender0: "getSenderForMessage type 0 = you"
  by (cases type) (simp_all add: getSenderForMessage_def)

text \<open>
  Claim C8: on a list of exactly one message the component produces, in every zone,
  exactly one assigned message, dated to the last entry of the window, which is the current
  date.
\<close>

theorem single_message_today:
  "assignedMessages zone clock today [t] type =
     Inr [\<lparr>text' = t, sender = you, date = Some (last (generateDates zone today)),
           timestamp = ''9:07 AM'', dateBreakIndex = 0\<rparr>]
   \<and> last (generateDates zone today) = today"
proof -
  have db: "computeDateBreaks [m] = [0]" for m :: AssignedMessage
    by (simp add: computeDateBreaks_eq)
  have "assignedMessages zone clock today [t] type =
     Inr [\<lparr>text' = t, sender = you, date = Some (last (generateDates zone today)),
           timestamp = ''9:07 AM'', dateBreakIndex = 0\<rparr>]"
    by (simp add: assignedMessages_def assignMessagesToUsers_def generateTimestamps_def
        generateTimestampsTrace_def db processMessage_def findDateBreakIndex_def
        initialDateIndex_def getSender0 arrayGet_last generateDates_nonempty
        nextTimeIndex_def allTimes_def rolloverTaken_def Let_def)
  then show ?thesis
    by (simp add: generateDates_def last_pushDates)
qed

section \<open>The callback of \<^verbatim>\<open>generateTimestamps\<close>\<close>

lemma find_SomeD: "find P xs = Some x \<Longrightarrow> P x \<and> x \<in> set xs"
  by (induction xs) (auto split: if_splits)

lemma nextTimeIndex_less: "ts \<noteq> [] \<Longrightarrow> nextTimeIndex ts l b < length ts"
  by (cases ts) (auto simp: nextTimeIndex_def Let_def split: option.splits)

lemma businessHoursTimes_hours:
  "map parseTimeToHour businessHoursTimes = [9, 11, 14, 16]"
  by code_simp

lemma businessHoursTimes_within:
  assumes "t \<in> set businessHoursTimes"
  shows "isWithinBusinessHours t"
proof -
  from assms have "parseTimeToHour t \<in> set (map parseTimeToHour businessHoursTimes)"
    by simp
  then show ?thesis
    unfolding businessHoursTimes_hours
    by (auto simp: isWithinBusinessHours_def BUSINESS_HOUR_START_def BUSINESS_HOUR_END_def)
qed

lemma processMessage_Inr:
  fixes zone dbs ads m i msg
  defines "B \<equiv> findDateBreakIndex dbs i"
  defines "D \<equiv> arrayGet ads
                   (if sender msg = support
                    then weekdayDateIndex ads (initialDateIndex (length ads) (length dbs) B)
                    else initialDateIndex (length ads) (length dbs) B)"
  defines "ts \<equiv> if sender msg = support then businessHoursTimes else allTimes"
  defines "TI \<equiv> nextTimeIndex ts (m D) B"
  shows "processMessage zone dbs ads m i msg =
      Inr (msg\<lparr>date := D, timestamp := ts ! TI, dateBreakIndex := B\<rparr>, ts ! TI, m(D \<mapsto> TI))"
    and "ts ! TI \<in> set ts"
    and "\<not> rolloverTaken (sender msg) (ts ! TI)"
proof -
  have "ts \<noteq> []"
    by (simp add: ts_def businessHoursTimes_def allTimes_def)
  then have "TI < length ts"
    unfolding TI_def by (rule nextTimeIndex_less)
  then show mem: "ts ! TI \<in> set ts"
    by simp
  then show no: "\<not> rolloverTaken (sender msg) (ts ! TI)"
    by (auto simp: rolloverTaken_def ts_def businessHoursTimes_within)
  then show "processMessage zone dbs ads m i msg =
      Inr (msg\<lparr>date := D, timestamp := ts ! TI, dateBreakIndex := B\<rparr>, ts ! TI, m(D \<mapsto> TI))"
    unfolding processMessage_def Let_def B_def [symmetric]
    by (cases "sender msg = support") (simp_all add: D_def ts_def TI_def)
qed

lemma forEachMessage_all:
  assumes "\<And>m i msg. \<exists>msg' T m'. processMessage zone dbs ads m i msg = Inr (msg', T, m')
              \<and> Q msg msg' T"
  shows "\<exists>out. forEachMessage zone dbs ads m i msgs = Inr out
           \<and> list_all2 (\<lambda>msg (msg', T). Q msg msg' T) msgs out"
proof (induction msgs arbitrary: m i)
  case Nil
  show ?case by simp
next
  case (Cons msg rest)
  from assms obtain msg' T m' where
    step: "processMessage zone dbs ads m i msg = Inr (msg', T, m')" and q: "Q msg msg' T"
    by blast
  from Cons.IH [of m' "Suc i"] obtain out where
    "forEachMessage zone dbs ads m' (Suc i) rest = Inr out"
    "list_all2 (\<lambda>msg (msg', T). Q msg msg' T) rest out"
    by blast
  with step q show ?case by simp
qed

section \<open>The date of a message\<close>

lemma initialDateIndex_range:
  "0 < len \<Longrightarrow> 0 \<le> initialDateIndex len T b \<and> initialDateIndex len T b < int len"
  by (auto simp: initialDateIndex_def)

lemma weekdayDateIndex_range:
  assumes "0 \<le> i0" "i0 < int (length ads)"
  shows "0 \<le> weekdayDateIndex ads i0 \<and> weekdayDateIndex ads i0 < int (length ads)"
  using assms
  by (auto simp: weekdayDateIndex_def Let_def split: option.splits dest!: find_SomeD)

lemma weekdayDateIndex_weekday:
  assumes "0 \<le> i0" "i0 < int (length ads)"
    and ex: "\<exists>d\<in>set ads. isWeekdayNumber (getDay d)"
  shows "isWeekdayNumber (getDay (ads ! nat (weekdayDateIndex ads i0)))"
proof (cases "getDay (ads ! nat i0) = 0 \<or> getDay (ads ! nat i0) = 6")
  case False
  then have "isWeekdayNumber (getDay (ads ! nat i0))"
    using getDay_less [of "ads ! nat i0"] by (auto simp: isWeekdayNumber_def)
  with False assms show ?thesis
    by (auto simp: weekdayDateIndex_def Let_def arrayGet_def)
next
  case True
  let ?P = "\<lambda>i. isWeekdayNumber (getDay (ads ! nat i))"
  from True have init: "map_option getDay (arrayGet ads i0) = Some 0
      \<or> map_option getDay (arrayGet ads i0) = Some 6"
    using assms by (auto simp: arrayGet_def)
  show ?thesis
  proof (cases "find ?P [i0 + 1 .. int (length ads) - 1]")
    case (Some i)
    with init show ?thesis
      by (auto simp: weekdayDateIndex_def Let_def dest: find_SomeD)
  next
    case fwd: None
    show ?thesis
    proof (cases "find ?P (rev [0 .. i0 - 1])")
      case (Some i)
      with init fwd show ?thesis
        by (auto simp: weekdayDateIndex_def Let_def dest: find_SomeD)
    next
      case bwd: None
      from ex obtain k where k: "k < length ads" "isWeekdayNumber (getDay (ads ! k))"
        by (auto simp: in_set_conv_nth)
      from True have at: "\<not> ?P i0"
        by (auto simp: isWeekdayNumber_def)
      from fwd have after: "\<forall>i\<in>{i0 + 1 .. int (length ads) - 1}. \<not> ?P i"
        by (simp add: find_None_iff)
      from bwd have before: "\<forall>i\<in>{0 .. i0 - 1}. \<not> ?P i"
        by (simp add: find_None_iff)
      consider "int k < i0" | "int k = i0" | "i0 < int k"
        by linarith
      then have "\<not> ?P (int k)"
      proof cases
        case 1
        then have "int k \<in> {0 .. i0 - 1}" by simp
        with before show ?thesis by blast
      next
        case 2
        with at show ?thesis by simp
      next
        case 3
        with k(1) have "int k \<in> {i0 + 1 .. int (length ads) - 1}" by simp
        with after show ?thesis by blast
      qed
      with k(2) show ?thesis by simp
    qed
  qed
qed

section \<open>Properties of every run\<close>

lemma list_all2_rightD: "list_all2 R xs ys \<Longrightarrow> y \<in> set ys \<Longrightarrow> \<exists>x\<in>set xs. R x y"
  by (induction rule: list_all2_induct) auto

lemma messageDate_in_window:
  assumes "ads \<noteq> []"
  shows "\<exists>d\<in>set ads. arrayGet ads
           (if s = support then weekdayDateIndex ads (initialDateIndex (length ads) T b)
            else initialDateIndex (length ads) T b) = Some d"
proof -
  from assms have r: "0 \<le> initialDateIndex (length ads) T b"
      "initialDateIndex (length ads) T b < int (length ads)"
    using initialDateIndex_range [of "length ads" T b] by simp_all
  from weekdayDateIndex_range [OF r] r show ?thesis
    by (auto simp: arrayGet_def)
qed

lemma supportDate_weekday:
  assumes "\<exists>d\<in>set ads. isWeekdayNumber (getDay d)"
  shows "\<exists>d. arrayGet ads (weekdayDateIndex ads (initialDateIndex (length ads) T b)) = Some d
           \<and> isWeekdayNumber (getDay d)"
proof -
  from assms have "0 < length ads" by auto
  then have r: "0 \<le> initialDateIndex (length ads) T b"
      "initialDateIndex (length ads) T b < int (length ads)"
    using initialDateIndex_range [of "length ads" T b] by simp_all
  from weekdayDateIndex_range [OF r] weekdayDateIndex_weekday [OF r assms] show ?thesis
    by (simp add: arrayGet_def)
qed

lemma processMessage_props:
  "\<exists>msg' T m'. processMessage zone dbs ads m i msg = Inr (msg', T, m')
     \<and> (sender msg' = sender msg \<and> text' msg' = text' msg \<and> timestamp msg' = T
        \<and> T \<in> set (if sender msg = support then businessHoursTimes else allTimes)
        \<and> \<not> rolloverTaken (sender msg) T
        \<and> (ads \<noteq> [] \<longrightarrow> (\<exists>d\<in>set ads. date msg' = Some d))
        \<and> (sender msg = support \<and> (\<exists>d\<in>set ads. isWeekdayNumber (getDay d))
             \<longrightarrow> (\<exists>d. date msg' = Some d \<and> isWeekdayNumber (getDay d))))"
  using processMessage_Inr(1) [where zone = zone and dbs = dbs and ads = ads and m = m
        and i = i and msg = msg]
    processMessage_Inr(2,3) [where dbs = dbs and ads = ads and m = m and i = i and msg = msg]
    messageDate_in_window [of ads "sender msg" "length dbs" "findDateBreakIndex dbs i"]
    supportDate_weekday [of ads "length dbs" "findDateBreakIndex dbs i"]
  by auto

lemma generateTimestampsTrace_props:
  "\<exists>out. generateTimestampsTrace zone msgs ads = Inr out
     \<and> list_all2 (\<lambda>msg (msg', T).
          sender msg' = sender msg \<and> text' msg' = text' msg \<and> timestamp msg' = T
        \<and> T \<in> set (if sender msg = support then businessHoursTimes else allTimes)
        \<and> \<not> rolloverTaken (sender msg) T
        \<and> (ads \<noteq> [] \<longrightarrow> (\<exists>d\<in>set ads. date msg' = Some d))
        \<and> (sender msg = support \<and> (\<exists>d\<in>set ads. isWeekdayNumber (getDay d))
             \<longrightarrow> (\<exists>d. date msg' = Some d \<and> isWeekdayNumber (getDay d)))) msgs out"
  unfolding generateTimestampsTrace_def
  by (rule forEachMessage_all) (rule processMessage_props)

text \<open>
  Claim C9: on every input, the time read for a \<open>support\<close> message is one of the four
  business-hours candidates, each of which parses to an hour from 9 to 17; so the condition
  of the business-hours branch is false for every message, and the call of
  \<^verbatim>\<open>adjustToBusinessHours\<close> with the search that follows it never runs. The function
  returns (it does not throw) with one entry per message.
\<close>

theorem support_times_never_roll_over:
  "(\<exists>out. generateTimestampsTrace zone messages availableDates = Inr out
      \<and> length out = length messages
      \<and> (\<forall>(m, assignedTime)\<in>set out.
            (sender m = support \<longrightarrow> assignedTime \<in> set businessHoursTimes)
            \<and> \<not> rolloverTaken (sender m) assignedTime))
   \<and> (\<forall>t\<in>set businessHoursTimes.
         BUSINESS_HOUR_START \<le> parseTimeToHour t \<and> parseTimeToHour t \<le> BUSINESS_HOUR_END)"
proof -
  from generateTimestampsTrace_props [of zone messages availableDates] obtain out where
    out: "generateTimestampsTrace zone messages availableDates = Inr out"
    and all: "list_all2 (\<lambda>msg (msg', T).
          sender msg' = sender msg \<and> text' msg' = text' msg \<and> timestamp msg' = T
        \<and> T \<in> set (if sender msg = support then businessHoursTimes else allTimes)
        \<and> \<not> rolloverTaken (sender msg) T
        \<and> (availableDates \<noteq> [] \<longrightarrow> (\<exists>d\<in>set availableDates. date msg' = Some d))
        \<and> (sender msg = support \<and> (\<exists>d\<in>set availableDates. isWeekdayNumber (getDay d))
             \<longrightarrow> (\<exists>d. date msg' = Some d \<and> isWeekdayNumber (getDay d)))) messages out"
    by blast
  have "length out = length messages"
    using all by (simp add: list_all2_lengthD)
  moreover have "(sender m = support \<longrightarrow> T \<in> set businessHoursTimes)
      \<and> \<not> rolloverTaken (sender m) T" if "(m, T) \<in> set out" for m T
    using list_all2_rightD [OF all that] by (auto split: if_splits)
  moreover have "\<forall>t\<in>set businessHoursTimes.
         BUSINESS_HOUR_START \<le> parseTimeToHour t \<and> parseTimeToHour t \<le> BUSINESS_HOUR_END"
    using businessHoursTimes_within by (simp add: isWithinBusinessHours_def Let_def)
  ultimately show ?thesis
    using out by auto
qed

text \<open>One \<open>support\<close> message on the window of a single Thursday.\<close>

theorem support_times_never_roll_over_witness:
  "\<exists>out. generateTimestampsTrace []
        [\<lparr>text' = ''hi'', sender = support, date = None, timestamp = [], dateBreakIndex = 0\<rparr>]
        [19726] = Inr out
     \<and> (\<exists>(m, assignedTime)\<in>set out. sender m = support)
     \<and> (\<forall>(m, assignedTime)\<in>set out.
            (sender m = support \<longrightarrow> assignedTime \<in> set businessHoursTimes)
            \<and> \<not> rolloverTaken (sender m) assignedTime)
     \<and> ''4:07 PM'' \<in> set businessHoursTimes
     \<and> BUSINESS_HOUR_START \<le> parseTimeToHour ''4:07 PM''
     \<and> parseTimeToHour ''4:07 PM'' \<le> BUSINESS_HOUR_END"
proof -
  have run: "generateTimestampsTrace []
        [\<lparr>text' = ''hi'', sender = support, date = None, timestamp = [], dateBreakIndex = 0\<rparr>]
        [19726] =
      Inr [(\<lparr>text' = ''hi'', sender = support, date = Some 19726, timestamp = ''9:07 AM'',
             dateBreakIndex = 0\<rparr>, ''9:07 AM'')]"
    by code_simp
  have mem: "''4:07 PM'' \<in> set businessHoursTimes"
    by (simp add: businessHoursTimes_def)
  from support_times_never_roll_over
    [of "[]"
      "[\<lparr>text' = ''hi'', sender = support, date = None, timestamp = [], dateBreakIndex = 0\<rparr>]"
      "[19726]"] mem
  show ?thesis
    unfolding run by auto
qed

text \<open>
  Claim C10: for a non-empty window and any list of messages, \<^verbatim>\<open>generateTimestamps\<close>
  returns one message per input message, and the date of each is an entry of the window.
\<close>

theorem generateTimestamps_dates_in_window:
  assumes "availableDates \<noteq> []"
  shows "\<exists>out. generateTimestamps zone messages availableDates = Inr out
      \<and> length out = length messages
      \<and> (\<forall>m\<in>set out. \<exists>d\<in>set availableDates. date m = Some d)"
proof -
  from generateTimestampsTrace_props [of zone messages availableDates] obtain out where
    out: "generateTimestampsTrace zone messages availableDates = Inr out"
    and all: "list_all2 (\<lambda>msg (msg', T).
          sender msg' = sender msg \<and> text' msg' = text' msg \<and> timestamp msg' = T
        \<and> T \<in> set (if sender msg = support then businessHoursTimes else allTimes)
        \<and> \<not> rolloverTaken (sender msg) T
        \<and> (availableDates \<noteq> [] \<longrightarrow> (\<exists>d\<in>set availableDates. date msg' = Some d))
        \<and> (sender msg = support \<and> (\<exists>d\<in>set availableDates. isWeekdayNumber (getDay d))
             \<longrightarrow> (\<exists>d. date msg' = Some d \<and> isWeekdayNumber (getDay d)))) messages out"
    by blast
  have "length (map fst out) = length messages"
    using all by (simp add: list_all2_lengthD)
  moreover have "\<exists>d\<in>set availableDates. date m = Some d" if "m \<in> set (map fst out)" for m
  proof -
    from that obtain T where "(m, T) \<in> set out" by auto
    from list_all2_rightD [OF all this] assms show ?thesis by auto
  qed
  ultimately show ?thesis
    using out by (simp add: generateTimestamps_def)
qed

text \<open>A window of a Saturday and a Sunday: the \<open>support\<close> message stays inside it.\<close>

theorem generateTimestamps_dates_in_window_witness:
  "[19728, 19729] \<noteq> ([] :: Date list)
   \<and> (\<exists>out. generateTimestamps []
          [\<lparr>text' = ''hi'', sender = support, date = None, timestamp = [], dateBreakIndex = 0\<rparr>]
          [19728, 19729] = Inr out
        \<and> length out = 1
        \<and> (\<forall>m\<in>set out. \<exists>d\<in>set [19728, 19729]. date m = Some d))"
proof -
  have h: "[19728, 19729] \<noteq> ([] :: Date list)"
    by simp
  from generateTimestamps_dates_in_window [OF h,
      where zone = "[]" and messages =
        "[\<lparr>text' = ''hi'', sender = support, date = None, timestamp = [], dateBreakIndex = 0\<rparr>]"]
  show ?thesis
    by simp
qed



section \<open>Independence of the clock\<close>

lemma processMessage_cong:
  assumes "text' a = text' b" "sender a = sender b"
  shows "processMessage zone dbs ads m i a = processMessage zone dbs ads m i b"
proof -
  have "a\<lparr>date := d, timestamp := t, dateBreakIndex := k\<rparr>
      = b\<lparr>date := d, timestamp := t, dateBreakIndex := k\<rparr>" for d t k
    using assms by (cases a, cases b) simp
  with assms(2) show ?thesis
    by (simp add: processMessage_Inr(1))
qed

lemma forEachMessage_cong:
  assumes "list_all2 (\<lambda>a b. text' a = text' b \<and> sender a = sender b) as bs"
  shows "forEachMessage zone dbs ads m i as = forEachMessage zone dbs ads m i bs"
  using assms
proof (induction arbitrary: m i rule: list_all2_induct)
  case Nil
  show ?case by simp
next
  case (Cons a as b bs)
  from Cons(1) have "processMessage zone dbs ads m i a = processMessage zone dbs ads m i b"
    by (intro processMessage_cong) simp_all
  moreover have "forEachMessage zone dbs ads m' (Suc i) as = forEachMessage zone dbs ads m' (Suc i) bs"
    for m'
    by (rule Cons(3))
  ultimately show ?case
    by (simp split: sum.splits prod.splits)
qed

lemma computeDateBreaks_cong:
  assumes "list_all2 (\<lambda>a b. text' a = text' b \<and> sender a = sender b) as bs"
  shows "computeDateBreaks as = computeDateBreaks bs"
proof -
  have len: "length as = length bs"
    using assms by (rule list_all2_lengthD)
  have sen: "sender (as ! k) = sender (bs ! k)" if "k < length bs" for k
    using list_all2_nthD2 [OF assms that] by simp
  then have "filter (\<lambda>i. i mod 2 = 0 \<or> (sender (as ! (i - 1)) = support \<and> sender (as ! i) = you))
        [1..<length bs]
      = filter (\<lambda>i. i mod 2 = 0 \<or> (sender (bs ! (i - 1)) = support \<and> sender (bs ! i) = you))
        [1..<length bs]"
  proof (intro filter_cong refl)
    fix x assume "x \<in> set [1..<length bs]"
    then have "x < length bs" "x - 1 < length bs" by auto
    then have "sender (as ! x) = sender (bs ! x)" "sender (as ! (x - 1)) = sender (bs ! (x - 1))"
      using sen by blast+
    then show "(x mod 2 = 0 \<or> (sender (as ! (x - 1)) = support \<and> sender (as ! x) = you))
        = (x mod 2 = 0 \<or> (sender (bs ! (x - 1)) = support \<and> sender (bs ! x) = you))"
      by simp
  qed
  then show ?thesis
    by (simp add: computeDateBreaks_eq len)
qed

lemma assignSenders_clock:
  "list_all2 (\<lambda>a b. text' a = text' b \<and> sender a = sender b)
     (assignSenders clock type i raw) (assignSenders clock' type i raw)"
  by (induction raw arbitrary: i) simp_all

text \<open>
  Claim C5: the output of the component is a function of the raw messages, the
  conversation type and the current date alone (in a given time zone). As a HOL function the model gives equal
  results on equal arguments; what is proved is that the one further reading of the clock,
  the placeholder \<^verbatim>\<open>new Date()\<close> of each stub, does not reach the output: two runs with
  any two clocks agree.
\<close>

theorem assignedMessages_deterministic:
  "assignedMessages zone clock today rawMessages type = assignedMessages zone clock' today rawMessages type"
  using forEachMessage_cong [OF assignSenders_clock [of clock type 0 rawMessages clock']]
    computeDateBreaks_cong [OF assignSenders_clock [of clock type 0 rawMessages clock']]
  by (simp add: assignedMessages_def assignMessagesToUsers_def generateTimestamps_def
      generateTimestampsTrace_def)

section \<open>The business-hours reassignment\<close>

lemma skipWeekend_props:
  "x \<le> skipWeekend zone x \<and> \<not> isWeekend (skipWeekend zone x)
   \<and> (\<forall>e. x \<le> e \<and> e < skipWeekend zone x \<longrightarrow> isWeekend e \<or> e \<in> set zone)"
proof (induction zone x rule: skipWeekend.induct)
  case (1 zone nextDate)
  show ?case
  proof (cases "isWeekend nextDate")
    case True
    let ?next = "setDate zone nextDate (nextDate + 1)"
    have eq: "skipWeekend zone nextDate = skipWeekend zone ?next"
      using True by (subst skipWeekend.simps) simp
    have nxt: "?next = nextDate + 1 \<or> (?next = nextDate + 2 \<and> nextDate + 1 \<in> set zone)"
      by (auto simp: setDate_def)
    have "isWeekend e \<or> e \<in> set zone" if e: "nextDate \<le> e" "e < skipWeekend zone ?next" for e
    proof -
      consider "e = nextDate" | "e = nextDate + 1" "?next = nextDate + 2" | "?next \<le> e"
        using e(1) nxt by atomize_elim auto
      then show ?thesis
      proof cases
        case 1
        with True show ?thesis by simp
      next
        case 2
        with nxt show ?thesis by simp
      next
        case 3
        with "1.IH" [OF True] e(2) show ?thesis by blast
      qed
    qed
    moreover have "nextDate \<le> skipWeekend zone ?next"
      using "1.IH" [OF True] nxt by linarith
    ultimately show ?thesis
      unfolding eq using "1.IH" [OF True] by blast
  next
    case False
    then have "skipWeekend zone nextDate = nextDate"
      by (subst skipWeekend.simps) simp
    with False show ?thesis by auto
  qed
qed

lemma getNextBusinessDay_props:
  "d < getNextBusinessDay zone d \<and> \<not> isWeekend (getNextBusinessDay zone d)
   \<and> (\<forall>e. d < e \<and> e < getNextBusinessDay zone d \<longrightarrow> isWeekend e \<or> e \<in> set zone)"
proof -
  let ?first = "setDate zone d (d + 1)"
  have first: "?first = d + 1 \<or> (?first = d + 2 \<and> d + 1 \<in> set zone)"
    by (auto simp: setDate_def)
  have "isWeekend e \<or> e \<in> set zone" if e: "d < e" "e < skipWeekend zone ?first" for e
  proof -
    consider "e = d + 1" "?first = d + 2" | "?first \<le> e"
      using e(1) first by atomize_elim auto
    then show ?thesis
    proof cases
      case 1
      with first show ?thesis by simp
    next
      case 2
      with skipWeekend_props [of ?first zone] e(2) show ?thesis by blast
    qed
  qed
  moreover have "d < skipWeekend zone ?first"
    using skipWeekend_props [of ?first zone] first by linarith
  ultimately show ?thesis
    unfolding getNextBusinessDay_def using skipWeekend_props [of ?first zone] by blast
qed

lemma find_the_element: "n \<in> set xs \<Longrightarrow> P n \<Longrightarrow> find (\<lambda>x. x = n \<and> P x) xs = Some n"
  by (induction xs) auto

lemma find_sorted_least:
  "sorted xs \<Longrightarrow> find P xs = Some a \<Longrightarrow> x \<in> set xs \<Longrightarrow> P x \<Longrightarrow> a \<le> (x::int)"
  by (induction xs) (auto split: if_splits)

lemma find_first_split:
  "find P xs = Some a \<Longrightarrow> \<exists>pre post. xs = pre @ a # post \<and> (\<forall>y\<in>set pre. \<not> P y)"
proof (induction xs)
  case Nil
  then show ?case by simp
next
  case (Cons x xs)
  show ?case
  proof (cases "P x")
    case True
    with Cons.prems have "x # xs = [] @ a # xs" by simp
    then show ?thesis by fastforce
  next
    case False
    with Cons obtain pre post where "xs = pre @ a # post" "\<forall>y\<in>set pre. \<not> P y"
      by auto
    with False have "x # xs = (x # pre) @ a # post \<and> (\<forall>y\<in>set (x # pre). \<not> P y)"
      by simp
    then show ?thesis by blast
  qed
qed

lemma find_exists: "x \<in> set xs \<Longrightarrow> P x \<Longrightarrow> \<exists>a. find P xs = Some a"
  by (cases "find P xs") (auto simp: find_None_iff)

lemma findAdjustedDate_exact:
  "n \<in> set ads \<Longrightarrow> \<not> isWeekend n \<Longrightarrow> findAdjustedDate ads n = Some n"
  by (simp add: findAdjustedDate_def find_the_element)

lemma findAdjustedDate_SomeD:
  assumes "findAdjustedDate ads n = Some a"
  shows "a \<in> set ads \<and> \<not> isWeekend a \<and> n \<le> a"
  using assms
  by (auto simp: findAdjustedDate_def split: option.splits dest!: find_SomeD)

lemma findAdjustedDate_total:
  assumes "x \<in> set ads" "n \<le> x" "\<not> isWeekend x"
  shows "\<exists>a. findAdjustedDate ads n = Some a"
proof (cases "find (\<lambda>y. y = n \<and> \<not> isWeekend y) ads")
  case None
  from find_exists [of x ads "\<lambda>y. y \<ge> n \<and> \<not> isWeekend y"] assms
  obtain a where "find (\<lambda>y. y \<ge> n \<and> \<not> isWeekend y) ads = Some a"
    by auto
  with None show ?thesis
    by (simp add: findAdjustedDate_def)
next
  case (Some b)
  then show ?thesis
    by (simp add: findAdjustedDate_def)
qed

lemma findAdjustedDate_None:
  assumes "\<forall>x\<in>set ads. \<not> (n \<le> x \<and> \<not> isWeekend x)"
  shows "findAdjustedDate ads n = None"
proof (cases "findAdjustedDate ads n")
  case None
  then show ?thesis .
next
  case (Some a)
  from findAdjustedDate_SomeD [OF this] assms show ?thesis
    by blast
qed

lemma findAdjustedDate_first:
  assumes "findAdjustedDate ads n = Some a" "n \<notin> set ads"
  shows "\<exists>pre post. ads = pre @ a # post \<and> (\<forall>y\<in>set pre. \<not> (n \<le> y \<and> \<not> isWeekend y))"
proof (cases "find (\<lambda>y. y = n \<and> \<not> isWeekend y) ads")
  case None
  with assms(1) have "find (\<lambda>y. y \<ge> n \<and> \<not> isWeekend y) ads = Some a"
    by (simp add: findAdjustedDate_def)
  from find_first_split [OF this] show ?thesis
    by simp
next
  case (Some b)
  with assms(2) show ?thesis
    by (auto dest: find_SomeD)
qed

lemma findAdjustedDate_least:
  assumes "findAdjustedDate ads n = Some a" "sorted ads" "x \<in> set ads" "n \<le> x" "\<not> isWeekend x"
  shows "a \<le> x"
proof (cases "find (\<lambda>y. y = n \<and> \<not> isWeekend y) ads")
  case None
  with assms(1) have "find (\<lambda>y. y \<ge> n \<and> \<not> isWeekend y) ads = Some a"
    by (simp add: findAdjustedDate_def)
  from find_sorted_least [OF assms(2) this assms(3)] assms(4,5) show ?thesis
    by simp
next
  case (Some b)
  with assms(1) have "a = n"
    by (auto simp: findAdjustedDate_def dest: find_SomeD)
  with assms(4) show ?thesis by simp
qed

lemma after_hours: "\<not> isWithinBusinessHours ''7:15 PM''"
  by code_simp

lemma reassign_after_hours:
  "\<not> isWithinBusinessHours t \<Longrightarrow>
   reassignToBusinessHours zone ads (Some d) t =
     Inr (case findAdjustedDate ads (getNextBusinessDay zone d) of
            Some a \<Rightarrow> Some a | None \<Rightarrow> Some d, ''9:00 AM'')"
  by (simp add: reassignToBusinessHours_def adjustToBusinessHours_def Let_def)

lemma reassign_found:
  assumes t: "\<not> isWithinBusinessHours t"
    and x: "x \<in> set ads" "getNextBusinessDay zone d \<le> x" "\<not> isWeekend x"
  shows "\<exists>a. reassignToBusinessHours zone ads (Some d) t = Inr (Some a, ''9:00 AM'')
      \<and> a \<in> set ads \<and> \<not> isWeekend a \<and> getNextBusinessDay zone d \<le> a
      \<and> (getNextBusinessDay zone d \<in> set ads \<longrightarrow> a = getNextBusinessDay zone d)
      \<and> (getNextBusinessDay zone d \<notin> set ads \<longrightarrow>
           (\<exists>pre post. ads = pre @ a # post
              \<and> (\<forall>y\<in>set pre. \<not> (getNextBusinessDay zone d \<le> y \<and> \<not> isWeekend y))))
      \<and> (sorted ads \<longrightarrow>
           (\<forall>x\<in>set ads. getNextBusinessDay zone d \<le> x \<and> \<not> isWeekend x \<longrightarrow> a \<le> x))"
proof -
  let ?n = "getNextBusinessDay zone d"
  from findAdjustedDate_total [OF x] obtain a where a: "findAdjustedDate ads ?n = Some a"
    by blast
  have "reassignToBusinessHours zone ads (Some d) t = Inr (Some a, ''9:00 AM'')"
    by (simp add: reassign_after_hours [OF t] a)
  moreover have "?n \<in> set ads \<longrightarrow> a = ?n"
    using findAdjustedDate_exact [of ?n ads] getNextBusinessDay_props [of d zone] a by auto
  moreover have "?n \<notin> set ads \<longrightarrow>
      (\<exists>pre post. ads = pre @ a # post \<and> (\<forall>y\<in>set pre. \<not> (?n \<le> y \<and> \<not> isWeekend y)))"
    using findAdjustedDate_first [OF a] by blast
  moreover have "sorted ads \<longrightarrow> (\<forall>x\<in>set ads. ?n \<le> x \<and> \<not> isWeekend x \<longrightarrow> a \<le> x)"
    using findAdjustedDate_least [OF a] by blast
  ultimately show ?thesis
    using findAdjustedDate_SomeD [OF a] by blast
qed

lemma reassign_not_found:
  assumes "\<not> isWithinBusinessHours t"
    and "\<forall>x\<in>set ads. \<not> (getNextBusinessDay zone d \<le> x \<and> \<not> isWeekend x)"
  shows "reassignToBusinessHours zone ads (Some d) t = Inr (Some d, ''9:00 AM'')"
  by (simp add: reassign_after_hours [OF assms(1)] findAdjustedDate_None [OF assms(2)])

text \<open>
  Claim C3 says that some input makes the time read for a \<open>support\<close> message
  \<^verbatim>\<open>7:15 PM\<close>, and that a \<open>support\<close> message with a time outside business hours is moved to
  9:00 AM on the next available weekday. No input, in any zone, gives that time: it is read
  from the business-hours candidates. And the reassignment, run on a Friday (day 19727)
  with a window that holds no later day, gives 9:00 AM on the same Friday.
\<close>

theorem no_support_time_after_hours:
  "\<not> (\<exists>zone messages availableDates out m.
         generateTimestampsTrace zone messages availableDates = Inr out
         \<and> (m, ''7:15 PM'') \<in> set out \<and> sender m = support)
   \<and> \<not> isWithinBusinessHours ''7:15 PM''
   \<and> reassignToBusinessHours [] [19727] (Some 19727) ''7:15 PM'' = Inr (Some 19727, ''9:00 AM'')"
proof -
  have "\<not> (\<exists>zone messages availableDates out m.
         generateTimestampsTrace zone messages availableDates = Inr out
         \<and> (m, ''7:15 PM'') \<in> set out \<and> sender m = support)"
  proof
    assume "\<exists>zone messages availableDates out m.
         generateTimestampsTrace zone messages availableDates = Inr out
         \<and> (m, ''7:15 PM'') \<in> set out \<and> sender m = support"
    then obtain zone messages availableDates out m where
      out: "generateTimestampsTrace zone messages availableDates = Inr out"
      and m: "(m, ''7:15 PM'') \<in> set out" "sender m = support"
      by blast
    from generateTimestampsTrace_props [of zone messages availableDates] out
    have "list_all2 (\<lambda>msg (msg', T).
          sender msg' = sender msg \<and> text' msg' = text' msg \<and> timestamp msg' = T
        \<and> T \<in> set (if sender msg = support then businessHoursTimes else allTimes)
        \<and> \<not> rolloverTaken (sender msg) T
        \<and> (availableDates \<noteq> [] \<longrightarrow> (\<exists>d\<in>set availableDates. date msg' = Some d))
        \<and> (sender msg = support \<and> (\<exists>d\<in>set availableDates. isWeekdayNumber (getDay d))
             \<longrightarrow> (\<exists>d. date msg' = Some d \<and> isWeekdayNumber (getDay d)))) messages out"
      by simp
    from list_all2_rightD [OF this m(1)] m(2) have "''7:15 PM'' \<in> set businessHoursTimes"
      by auto
    then show False
      by (simp add: businessHoursTimes_def)
  qed
  moreover have "reassignToBusinessHours [] [19727] (Some 19727) ''7:15 PM''
      = Inr (Some 19727, ''9:00 AM'')"
    by code_simp
  ultimately show ?thesis
    using after_hours by blast
qed

text \<open>
  Claim C3, amended: on every input the time read for a \<open>support\<close> message is one of the
  business-hours candidates, so it is never \<^verbatim>\<open>7:15 PM\<close> (which is outside business hours)
  and the reassignment never runs inside \<^verbatim>\<open>generateTimestamps\<close>. The reassignment itself,
  run on a date \<open>d\<close> and a time outside 9:00 to 17:00, computes the next business day: a day
  after \<open>d\<close> that is no weekend, every day in between being a weekend day or a day the zone
  skipped. The time becomes \<^verbatim>\<open>9:00 AM\<close>. When the window has an entry on or after that day
  that is no weekend, the message moves to one: to the next business day itself when the
  window holds it, otherwise to the first such entry in the order of the window (the
  earliest one when the window is ascending). When the window has no such entry the
  message keeps its date.
\<close>

theorem business_hours_reassignment:
  "(\<exists>out. generateTimestampsTrace zone messages availableDates = Inr out
      \<and> (\<forall>(m, assignedTime)\<in>set out.
            sender m = support \<longrightarrow>
              assignedTime \<in> set businessHoursTimes \<and> assignedTime \<noteq> ''7:15 PM''
              \<and> \<not> rolloverTaken (sender m) assignedTime))
   \<and> \<not> isWithinBusinessHours ''7:15 PM''
   \<and> (\<not> isWithinBusinessHours t \<longrightarrow>
         d < getNextBusinessDay zone d \<and> \<not> isWeekend (getNextBusinessDay zone d)
         \<and> (\<forall>e. d < e \<and> e < getNextBusinessDay zone d \<longrightarrow> isWeekend e \<or> e \<in> set zone)
         \<and> ((\<exists>x\<in>set ads. getNextBusinessDay zone d \<le> x \<and> \<not> isWeekend x) \<longrightarrow>
              (\<exists>a. reassignToBusinessHours zone ads (Some d) t = Inr (Some a, ''9:00 AM'')
                 \<and> a \<in> set ads \<and> \<not> isWeekend a \<and> getNextBusinessDay zone d \<le> a
                 \<and> (getNextBusinessDay zone d \<in> set ads \<longrightarrow> a = getNextBusinessDay zone d)
                 \<and> (getNextBusinessDay zone d \<notin> set ads \<longrightarrow>
                      (\<exists>pre post. ads = pre @ a # post
                         \<and> (\<forall>y\<in>set pre. \<not> (getNextBusinessDay zone d \<le> y \<and> \<not> isWeekend y))))
                 \<and> (sorted ads \<longrightarrow>
                      (\<forall>x\<in>set ads. getNextBusinessDay zone d \<le> x \<and> \<not> isWeekend x
                          \<longrightarrow> a \<le> x))))
         \<and> ((\<forall>x\<in>set ads. \<not> (getNextBusinessDay zone d \<le> x \<and> \<not> isWeekend x)) \<longrightarrow>
              reassignToBusinessHours zone ads (Some d) t = Inr (Some d, ''9:00 AM'')))"
proof -
  from generateTimestampsTrace_props [of zone messages availableDates] obtain out where
    out: "generateTimestampsTrace zone messages availableDates = Inr out"
    and all: "list_all2 (\<lambda>msg (msg', T).
          sender msg' = sender msg \<and> text' msg' = text' msg \<and> timestamp msg' = T
        \<and> T \<in> set (if sender msg = support then businessHoursTimes else allTimes)
        \<and> \<not> rolloverTaken (sender msg) T
        \<and> (availableDates \<noteq> [] \<longrightarrow> (\<exists>d\<in>set availableDates. date msg' = Some d))
        \<and> (sender msg = support \<and> (\<exists>d\<in>set availableDates. isWeekdayNumber (getDay d))
             \<longrightarrow> (\<exists>d. date msg' = Some d \<and> isWeekdayNumber (getDay d)))) messages out"
    by blast
  have "T \<in> set businessHoursTimes \<and> T \<noteq> ''7:15 PM'' \<and> \<not> rolloverTaken (sender m) T"
    if mT: "(m, T) \<in> set out" "sender m = support" for m T
  proof -
    from list_all2_rightD [OF all mT(1)] mT(2)
    have "T \<in> set businessHoursTimes" "\<not> rolloverTaken (sender m) T"
      by auto
    then show ?thesis
      by (auto simp: businessHoursTimes_def)
  qed
  with out have first: "\<exists>out. generateTimestampsTrace zone messages availableDates = Inr out
      \<and> (\<forall>(m, assignedTime)\<in>set out.
            sender m = support \<longrightarrow>
              assignedTime \<in> set businessHoursTimes \<and> assignedTime \<noteq> ''7:15 PM''
              \<and> \<not> rolloverTaken (sender m) assignedTime)"
    by auto
  have found: "\<exists>a. reassignToBusinessHours zone ads (Some d) t = Inr (Some a, ''9:00 AM'')
                 \<and> a \<in> set ads \<and> \<not> isWeekend a \<and> getNextBusinessDay zone d \<le> a
                 \<and> (getNextBusinessDay zone d \<in> set ads \<longrightarrow> a = getNextBusinessDay zone d)
                 \<and> (getNextBusinessDay zone d \<notin> set ads \<longrightarrow>
                      (\<exists>pre post. ads = pre @ a # post
                         \<and> (\<forall>y\<in>set pre. \<not> (getNextBusinessDay zone d \<le> y \<and> \<not> isWeekend y))))
                 \<and> (sorted ads \<longrightarrow>
                      (\<forall>x\<in>set ads. getNextBusinessDay zone d \<le> x \<and> \<not> isWeekend x
                          \<longrightarrow> a \<le> x))"
    if "\<not> isWithinBusinessHours t"
      "\<exists>x\<in>set ads. getNextBusinessDay zone d \<le> x \<and> \<not> isWeekend x"
    using that reassign_found [of t _ ads zone d] by blast
  have kept: "reassignToBusinessHours zone ads (Some d) t = Inr (Some d, ''9:00 AM'')"
    if "\<not> isWithinBusinessHours t"
      "\<forall>x\<in>set ads. \<not> (getNextBusinessDay zone d \<le> x \<and> \<not> isWeekend x)"
    using that by (rule reassign_not_found)
  from first after_hours found kept getNextBusinessDay_props [of d zone] show ?thesis
    by blast
qed

text \<open>
  From Friday 5 January 2024 (day 19727) the next business day is Monday (day 19730): a
  window without Monday but with Tuesday moves the message to Tuesday, a window that ends
  on the Friday keeps it there. From Thursday 29 December 2011 in the zone that skipped the
  Friday, the next business day is Monday 2 January 2012 (day 15341).
\<close>

theorem business_hours_reassignment_witness:
  "\<not> isWithinBusinessHours ''7:15 PM''
   \<and> getNextBusinessDay [] 19727 = 19730
   \<and> (\<exists>x\<in>set [19727, 19731 :: Date]. getNextBusinessDay [] 19727 \<le> x \<and> \<not> isWeekend x)
   \<and> reassignToBusinessHours [] [19727, 19731] (Some 19727) ''7:15 PM''
       = Inr (Some 19731, ''9:00 AM'')
   \<and> 19727 < getNextBusinessDay [] 19727
   \<and> reassignToBusinessHours [] [19727] (Some 19727) ''7:15 PM''
       = Inr (Some 19727, ''9:00 AM'')
   \<and> getNextBusinessDay [15338] 15337 = 15341
   \<and> reassignToBusinessHours [15338] [15337, 15339, 15340, 15341] (Some 15337) ''7:15 PM''
       = Inr (Some 15341, ''9:00 AM'')
   \<and> (\<exists>out. generateTimestampsTrace []
          [\<lparr>text' = ''hi'', sender = support, date = None, timestamp = [], dateBreakIndex = 0\<rparr>]
          [19727] = Inr out
        \<and> (\<exists>(m, assignedTime)\<in>set out. sender m = support
              \<and> assignedTime \<in> set businessHoursTimes \<and> assignedTime \<noteq> ''7:15 PM''))"
proof -
  have late: "\<not> isWithinBusinessHours ''7:15 PM''"
    by code_simp
  have monday: "getNextBusinessDay [] 19727 = 19730"
    by code_simp
  have apia: "getNextBusinessDay [15338] 15337 = 15341"
    by code_simp
  have wd: "\<not> isWeekend 19731" "\<not> isWeekend 15341"
    by code_simp+
  have later: "\<exists>x\<in>set [19727, 19731 :: Date]. getNextBusinessDay [] 19727 \<le> x \<and> \<not> isWeekend x"
    unfolding monday using wd by simp
  have none: "\<forall>x\<in>set [19727 :: Date]. \<not> (getNextBusinessDay [] 19727 \<le> x \<and> \<not> isWeekend x)"
    unfolding monday by simp
  have exact: "\<exists>x\<in>set [15337, 15339, 15340, 15341 :: Date].
      getNextBusinessDay [15338] 15337 \<le> x \<and> \<not> isWeekend x"
    unfolding apia using wd by simp
  have run: "generateTimestampsTrace []
        [\<lparr>text' = ''hi'', sender = support, date = None, timestamp = [], dateBreakIndex = 0\<rparr>]
        [19727] =
      Inr [(\<lparr>text' = ''hi'', sender = support, date = Some 19727, timestamp = ''9:07 AM'',
             dateBreakIndex = 0\<rparr>, ''9:07 AM'')]"
    by code_simp
  from business_hours_reassignment
    [of "[]"
      "[\<lparr>text' = ''hi'', sender = support, date = None, timestamp = [], dateBreakIndex = 0\<rparr>]"
      "[19727]" "''7:15 PM''" 19727 "[19727, 19731]"] late later
  obtain a where a: "reassignToBusinessHours [] [19727, 19731] (Some 19727) ''7:15 PM''
        = Inr (Some a, ''9:00 AM'')"
      "a \<in> set [19727, 19731]" "getNextBusinessDay [] 19727 \<le> a"
    and trace: "\<exists>out. generateTimestampsTrace []
          [\<lparr>text' = ''hi'', sender = support, date = None, timestamp = [], dateBreakIndex = 0\<rparr>]
          [19727] = Inr out
        \<and> (\<forall>(m, assignedTime)\<in>set out. sender m = support \<longrightarrow>
              assignedTime \<in> set businessHoursTimes \<and> assignedTime \<noteq> ''7:15 PM''
              \<and> \<not> rolloverTaken (sender m) assignedTime)"
    by blast
  from a(2,3) have "a = 19731"
    unfolding monday by auto
  with a(1) have second: "reassignToBusinessHours [] [19727, 19731] (Some 19727) ''7:15 PM''
        = Inr (Some 19731, ''9:00 AM'')"
    by simp
  from business_hours_reassignment
    [of "[]" "[]" "[]" "''7:15 PM''" 19727 "[19727]"] late none
  have kept: "reassignToBusinessHours [] [19727] (Some 19727) ''7:15 PM''
       = Inr (Some 19727, ''9:00 AM'')"
    by blast
  from business_hours_reassignment
    [of "[15338]" "[]" "[]" "''7:15 PM''" 15337 "[15337, 15339, 15340, 15341]"] late exact
  obtain b where b: "reassignToBusinessHours [15338] [15337, 15339, 15340, 15341] (Some 15337)
        ''7:15 PM'' = Inr (Some b, ''9:00 AM'')"
      "getNextBusinessDay [15338] 15337 \<in> set [15337, 15339, 15340, 15341]
         \<longrightarrow> b = getNextBusinessDay [15338] 15337"
    by blast
  from b(2) have "b = 15341"
    unfolding apia by simp
  with b(1) have third: "reassignToBusinessHours [15338] [15337, 15339, 15340, 15341]
      (Some 15337) ''7:15 PM'' = Inr (Some 15341, ''9:00 AM'')"
    by simp
  from trace have "\<exists>out. generateTimestampsTrace []
          [\<lparr>text' = ''hi'', sender = support, date = None, timestamp = [], dateBreakIndex = 0\<rparr>]
          [19727] = Inr out
        \<and> (\<exists>(m, assignedTime)\<in>set out. sender m = support
              \<and> assignedTime \<in> set businessHoursTimes \<and> assignedTime \<noteq> ''7:15 PM'')"
    unfolding run by simp
  moreover have "19727 < getNextBusinessDay [] 19727"
    unfolding monday by simp
  ultimately show ?thesis
    using late monday later second kept apia third by blast
qed

section \<open>Order of the timestamps of a date\<close>

text \<open>
  Claim C2 says that the timestamps of the messages of one date do not decrease in message
  order. With ten messages on Thursday 4 January 2024 (day 19726), in a zone whose calendar
  has every day, the ninth message, of
  \<open>you\<close>, opens the last date at \<^verbatim>\<open>5:26 PM\<close> (index 4 of the long list), and the tenth, of
  \<open>support\<close>, on the same date, gets index 5 cut down to the last business-hours candidate,
  \<^verbatim>\<open>4:07 PM\<close>: hour 17 is followed by hour 16.
\<close>

theorem chronological_order_broken:
  "case assignedMessages [] (\<lambda>_. 19726) 19726
          [''m0'', ''m1'', ''m2'', ''m3'', ''m4'', ''m5'', ''m6'', ''m7'', ''m8'', ''m9''] bad of
     Inl e \<Rightarrow> False
   | Inr out \<Rightarrow>
       length out = 10
       \<and> map sender (drop 8 out) = [you, support]
       \<and> map date (drop 8 out) = [Some 19726, Some 19726]
       \<and> map timestamp (drop 8 out) = [''5:26 PM'', ''4:07 PM'']
       \<and> map (\<lambda>m. parseTimeToHour (timestamp m)) (drop 8 out) = [17, 16]"
  by code_simp

end
